theory Spec2Isabelle
  imports Main
begin

section \<open>The environment of the mounters: the document and the rendering backend\<close>

text \<open>
  The two mounters of \<^verbatim>\<open>examples/mounters\<close> (\<^verbatim>\<open>reactMount.js\<close> and, following it
  in the same source text, \<^verbatim>\<open>solidMount.js\<close>) keep two module-level variables each
  and call into the DOM and into a rendering library. Both collaborators are mutable and global, so they are
  written here as one explicit value, the \<open>world\<close>, that every operation takes and
  returns.

  A DOM element is an object: it has an identity (\<open>node_ref\<close>), a tag and an \<open>id\<close>
  attribute (\<open>el_id\<close>). The document is the list of the elements that are attached
  (that have a \<open>parentNode\<close>), in document order; \<open>next_node\<close> is the identity the
  next \<^verbatim>\<open>createElement\<close> hands out. An element whose \<open>id\<close> attribute is the empty
  string has no ID in the DOM: no lookup finds it.

  A render handle is what \<^verbatim>\<open>createRoot\<close> (React) or \<^verbatim>\<open>render\<close> (Solid, as the
  disposal function) returns. The backend keeps the handles that are live, each with
  the element it renders into and the component and props last rendered;
  \<open>next_handle\<close> is the identity of the next handle.
\<close>

type_synonym component = string
type_synonym props = "(string \<times> string) list"

record element =
  node_ref :: nat
  tag :: string
  el_id :: string

record tree =
  container :: nat
  content :: "(component \<times> props) option"

record world =
  elements :: "element list"
  next_node :: nat
  live :: "nat \<rightharpoonup> tree"
  next_handle :: nat

datatype error = TypeError | UnmountedRoot

subsection \<open>The document\<close>

text \<open>\<^verbatim>\<open>document.getElementById(elementId)\<close>: the first element of the document, in
  document order, whose ID is the one asked for, or \<^verbatim>\<open>null\<close>. The empty string is
  the ID of no element, so \<^verbatim>\<open>getElementById("")\<close> is \<^verbatim>\<open>null\<close> whatever the document
  holds.\<close>

definition getElementById :: "world \<Rightarrow> string \<Rightarrow> element option" where
  "getElementById w elementId =
     (if elementId = [] then None else find (\<lambda>e. el_id e = elementId) (elements w))"

text \<open>\<^verbatim>\<open>document.createElement(t)\<close>: a new element, detached, with an empty id.\<close>

definition createElement :: "string \<Rightarrow> world \<Rightarrow> element \<times> world" where
  "createElement t w =
     (\<lparr>node_ref = next_node w, tag = t, el_id = []\<rparr>, w\<lparr>next_node := Suc (next_node w)\<rparr>)"

text \<open>\<^verbatim>\<open>document.body.appendChild(e)\<close> for the detached element the mounters pass:
  the element becomes the last one of the document.\<close>

definition appendChild :: "element \<Rightarrow> world \<Rightarrow> world" where
  "appendChild e w = w\<lparr>elements := elements w @ [e]\<rparr>"

text \<open>\<^verbatim>\<open>e.parentNode\<close> read as a truth value: the element is attached.\<close>

definition parentNode :: "element \<Rightarrow> world \<Rightarrow> bool" where
  "parentNode e w = (node_ref e \<in> set (map node_ref (elements w)))"

text \<open>\<^verbatim>\<open>e.parentNode.removeChild(e)\<close>: the element leaves the document.\<close>

definition removeChild :: "element \<Rightarrow> world \<Rightarrow> world" where
  "removeChild e w = w\<lparr>elements := filter (\<lambda>x. node_ref x \<noteq> node_ref e) (elements w)\<rparr>"

subsection \<open>The rendering backends\<close>

text \<open>React: \<^verbatim>\<open>createRoot(container)\<close> returns a new root with nothing rendered yet;
  \<^verbatim>\<open>root.render(<Layout {...props} />)\<close> replaces what the root shows and throws on
  a root that has been unmounted; \<^verbatim>\<open>root.unmount()\<close> disposes the root.\<close>

definition createRoot :: "element \<Rightarrow> world \<Rightarrow> nat \<times> world" where
  "createRoot e w =
     (next_handle w,
      w\<lparr>live := (live w)(next_handle w \<mapsto> \<lparr>container = node_ref e, content = None\<rparr>),
        next_handle := Suc (next_handle w)\<rparr>)"

definition root_render :: "nat \<Rightarrow> component \<Rightarrow> props \<Rightarrow> world \<Rightarrow> error + world" where
  "root_render h Layout ps w =
     (case live w h of
        None \<Rightarrow> Inl UnmountedRoot
      | Some t \<Rightarrow> Inr (w\<lparr>live := (live w)(h \<mapsto> t\<lparr>content := Some (Layout, ps)\<rparr>)\<rparr>))"

definition root_unmount :: "nat \<Rightarrow> world \<Rightarrow> world" where
  "root_unmount h w = w\<lparr>live := (live w)(h := None)\<rparr>"

text \<open>Solid: \<^verbatim>\<open>render(() => createComponent(Layout, props), element)\<close> renders at once
  and returns the disposal function of the new tree; calling that function disposes
  the tree (calling it again does nothing more).\<close>

definition render :: "component \<Rightarrow> props \<Rightarrow> element \<Rightarrow> world \<Rightarrow> nat \<times> world" where
  "render Layout ps e w =
     (next_handle w,
      w\<lparr>live := (live w)(next_handle w \<mapsto> \<lparr>container = node_ref e, content = Some (Layout, ps)\<rparr>),
        next_handle := Suc (next_handle w)\<rparr>)"

definition call_dispose :: "nat \<Rightarrow> world \<Rightarrow> world" where
  "call_dispose d w = w\<lparr>live := (live w)(d := None)\<rparr>"

section \<open>The mounters\<close>

text \<open>
  Both files declare \<^verbatim>\<open>let rootElement = null\<close>; the React file keeps its root in
  \<^verbatim>\<open>root\<close>, the Solid file its disposal function in \<^verbatim>\<open>dispose\<close>. A state is the
  module's variables together with the world.
\<close>

record mounter =
  rootElement :: "element option"
  world :: world

record react_state = mounter +
  root :: "nat option"

record solid_state = mounter +
  dispose :: "nat option"

text \<open>
  Both \<^verbatim>\<open>mount\<close>s hold the same lines for the element: look it up by id and, when
  there is none, create a \<^verbatim>\<open>div\<close>, give it the id and append it to the body.
\<close>

definition getOrCreate :: "string \<Rightarrow> world \<Rightarrow> element \<times> world" where
  "getOrCreate elementId w =
     (case getElementById w elementId of
        Some e \<Rightarrow> (e, w)
      | None \<Rightarrow>
          (case createElement ''div'' w of
             (e, w1) \<Rightarrow> (e\<lparr>el_id := elementId\<rparr>, appendChild (e\<lparr>el_id := elementId\<rparr>) w1)))"

subsection \<open>reactMount.js\<close>

text \<open>
  \<^verbatim>\<open>mount\<close>: when \<^verbatim>\<open>!rootElement || rootElement.id !== elementId\<close>, the element is
  looked up or created and \<^verbatim>\<open>root = createRoot(rootElement)\<close>; the old root is
  overwritten, nothing is called on it. Then \<^verbatim>\<open>root.render(...)\<close>: on \<^verbatim>\<open>null\<close>
  this is a \<^verbatim>\<open>TypeError\<close>. An exception leaves \<^verbatim>\<open>mount\<close> before it has assigned
  anything (it can only come from the path that skips the \<^verbatim>\<open>if\<close>), so the state
  of the caller is the one before the call.
\<close>

definition react_mount :: "component \<Rightarrow> props \<Rightarrow> string \<Rightarrow> react_state \<Rightarrow> error + react_state" where
  "react_mount Layout ps elementId s =
     (let fresh =
            (case getOrCreate elementId (world s) of
               (e, w1) \<Rightarrow>
                 (case createRoot e w1 of
                    (h, w2) \<Rightarrow> s\<lparr>rootElement := Some e, world := w2, root := Some h\<rparr>));
          s1 = (case rootElement s of
                  None \<Rightarrow> fresh
                | Some e0 \<Rightarrow> if el_id e0 \<noteq> elementId then fresh else s)
      in case root s1 of
           None \<Rightarrow> Inl TypeError
         | Some h \<Rightarrow>
             (case root_render h Layout ps (world s1) of
                Inl err \<Rightarrow> Inl err
              | Inr w \<Rightarrow> Inr (s1\<lparr>world := w\<rparr>)))"

text \<open>The default of the third parameter, \<^verbatim>\<open>elementId = 'react-root'\<close>.\<close>

definition react_mount_default :: "component \<Rightarrow> props \<Rightarrow> react_state \<Rightarrow> error + react_state" where
  "react_mount_default Layout ps s = react_mount Layout ps ''react-root'' s"

definition react_unmount :: "react_state \<Rightarrow> react_state" where
  "react_unmount s =
     (case root s of
        Some h \<Rightarrow> s\<lparr>world := root_unmount h (world s), root := None\<rparr>
      | None \<Rightarrow> s)"

definition react_cleanup :: "react_state \<Rightarrow> react_state" where
  "react_cleanup s =
     (let s1 = react_unmount s;
          s2 = (case rootElement s1 of
                  Some e \<Rightarrow> if parentNode e (world s1)
                            then s1\<lparr>world := removeChild e (world s1)\<rparr> else s1
                | None \<Rightarrow> s1)
      in s2\<lparr>rootElement := None\<rparr>)"

subsection \<open>solidMount.js\<close>

text \<open>
  \<^verbatim>\<open>mount\<close>: \<^verbatim>\<open>if (dispose) dispose()\<close> comes first, whatever the id; then the
  same lines for the element; then \<^verbatim>\<open>dispose = render(..., rootElement)\<close>, where
  \<^verbatim>\<open>rootElement\<close> is an element on every path.
\<close>

definition solid_mount :: "component \<Rightarrow> props \<Rightarrow> string \<Rightarrow> solid_state \<Rightarrow> solid_state" where
  "solid_mount Layout ps elementId s =
     (let s1 = (case dispose s of
                  Some d \<Rightarrow> s\<lparr>world := call_dispose d (world s)\<rparr>
                | None \<Rightarrow> s);
          (e, w1) = (case rootElement s1 of
                       None \<Rightarrow> getOrCreate elementId (world s1)
                     | Some e0 \<Rightarrow> if el_id e0 \<noteq> elementId
                                  then getOrCreate elementId (world s1)
                                  else (e0, world s1))
      in case render Layout ps e w1 of
           (d, w2) \<Rightarrow> s1\<lparr>rootElement := Some e, world := w2, dispose := Some d\<rparr>)"

text \<open>The default of the third parameter, \<^verbatim>\<open>elementId = 'solid-root'\<close>.\<close>

definition solid_mount_default :: "component \<Rightarrow> props \<Rightarrow> solid_state \<Rightarrow> solid_state" where
  "solid_mount_default Layout ps s = solid_mount Layout ps ''solid-root'' s"

definition solid_unmount :: "solid_state \<Rightarrow> solid_state" where
  "solid_unmount s =
     (case dispose s of
        Some d \<Rightarrow> s\<lparr>world := call_dispose d (world s), dispose := None\<rparr>
      | None \<Rightarrow> s)"

definition solid_cleanup :: "solid_state \<Rightarrow> solid_state" where
  "solid_cleanup s =
     (let s1 = solid_unmount s;
          s2 = (case rootElement s1 of
                  Some e \<Rightarrow> if parentNode e (world s1)
                            then s1\<lparr>world := removeChild e (world s1)\<rparr> else s1
                | None \<Rightarrow> s1)
      in s2\<lparr>rootElement := None\<rparr>)"

section \<open>Sequences of calls\<close>

text \<open>
  A caller (a router's actions, a teardown hook) issues calls one after the other. An
  exception is not caught by the mounter, so a sequence ends at the first one.
\<close>

datatype call = Mount component props string | Unmount | Cleanup

fun react_call :: "call \<Rightarrow> react_state \<Rightarrow> error + react_state" where
  "react_call (Mount Layout ps elementId) s = react_mount Layout ps elementId s"
| "react_call Unmount s = Inr (react_unmount s)"
| "react_call Cleanup s = Inr (react_cleanup s)"

fun react_run :: "call list \<Rightarrow> react_state \<Rightarrow> error + react_state" where
  "react_run [] s = Inr s"
| "react_run (c # cs) s =
     (case react_call c s of Inl err \<Rightarrow> Inl err | Inr s' \<Rightarrow> react_run cs s')"

fun solid_call :: "call \<Rightarrow> solid_state \<Rightarrow> solid_state" where
  "solid_call (Mount Layout ps elementId) s = solid_mount Layout ps elementId s"
| "solid_call Unmount s = solid_unmount s"
| "solid_call Cleanup s = solid_cleanup s"

fun solid_run :: "call list \<Rightarrow> solid_state \<Rightarrow> solid_state" where
  "solid_run [] s = s"
| "solid_run (c # cs) s = solid_run cs (solid_call c s)"

text \<open>The modules as loaded: both variables \<^verbatim>\<open>null\<close>.\<close>

definition react_init :: "world \<Rightarrow> react_state" where
  "react_init w = \<lparr>rootElement = None, world = w, root = None\<rparr>"

definition solid_init :: "world \<Rightarrow> solid_state" where
  "solid_init w = \<lparr>rootElement = None, world = w, dispose = None\<rparr>"

text \<open>A page with an empty body and nothing rendered.\<close>

definition empty_page :: world where
  "empty_page = \<lparr>elements = [], next_node = 0, live = Map.empty, next_handle = 0\<rparr>"

text \<open>
  The states both mounters reach from the empty page by
  \<^verbatim>\<open>mount(Layout, {content: "X"}, "app-root")\<close>: one \<^verbatim>\<open>div\<close> in the document and one
  live handle rendering into it.
\<close>

definition react_mounted :: react_state where
  "react_mounted =
     \<lparr>rootElement = Some \<lparr>node_ref = 0, tag = ''div'', el_id = ''app-root''\<rparr>,
      world = \<lparr>elements = [\<lparr>node_ref = 0, tag = ''div'', el_id = ''app-root''\<rparr>],
               next_node = 1,
               live = [0 \<mapsto> \<lparr>container = 0, content = Some (''Layout'', [(''content'', ''X'')])\<rparr>],
               next_handle = 1\<rparr>,
      root = Some 0\<rparr>"

definition solid_mounted :: solid_state where
  "solid_mounted =
     \<lparr>rootElement = Some \<lparr>node_ref = 0, tag = ''div'', el_id = ''app-root''\<rparr>,
      world = \<lparr>elements = [\<lparr>node_ref = 0, tag = ''div'', el_id = ''app-root''\<rparr>],
               next_node = 1,
               live = [0 \<mapsto> \<lparr>container = 0, content = Some (''Layout'', [(''content'', ''X'')])\<rparr>],
               next_handle = 1\<rparr>,
      dispose = Some 0\<rparr>"

section \<open>Reachable states\<close>

text \<open>
  What holds of the world whenever the mounter is its only client: IDs are unique in
  the document (as HTML requires; elements with an empty \<open>id\<close> have none and may be
  many), no element is in the document twice, and the elements and the live handles
  are older than the next ones to be handed out.
\<close>

definition valid_world :: "world \<Rightarrow> bool" where
  "valid_world w =
     (distinct (map el_id (filter (\<lambda>e. el_id e \<noteq> []) (elements w))) \<and>
      distinct (map node_ref (elements w)) \<and>
      list_all (\<lambda>e. node_ref e < next_node w) (elements w) \<and>
      (\<forall>h. next_handle w \<le> h \<longrightarrow> live w h = None))"

text \<open>
  What holds of the variables between calls: the stored element is in the document, and
  a stored handle is live and renders into the stored element. In the Solid variant
  the stored handle is moreover the only live one.
\<close>

definition react_inv :: "react_state \<Rightarrow> bool" where
  "react_inv s =
     (valid_world (world s) \<and>
      (case rootElement s of
         None \<Rightarrow> root s = None
       | Some e \<Rightarrow>
           e \<in> set (elements (world s)) \<and>
           (case root s of
              None \<Rightarrow> True
            | Some h \<Rightarrow>
                (case live (world s) h of
                   None \<Rightarrow> False
                 | Some t \<Rightarrow> container t = node_ref e))))"

definition solid_inv :: "solid_state \<Rightarrow> bool" where
  "solid_inv s =
     (valid_world (world s) \<and>
      dom (live (world s)) = set_option (dispose s) \<and>
      (case rootElement s of
         None \<Rightarrow> dispose s = None
       | Some e \<Rightarrow>
           e \<in> set (elements (world s)) \<and>
           (case dispose s of
              None \<Rightarrow> True
            | Some d \<Rightarrow>
                (case live (world s) d of
                   None \<Rightarrow> False
                 | Some t \<Rightarrow> container t = node_ref e))))"

section \<open>The invariants hold in every reachable state\<close>

subsection \<open>The element lookup\<close>

lemma getElementById_None:
  "getElementById w i = None \<longleftrightarrow> i = [] \<or> i \<notin> set (map el_id (elements w))"
  by (auto simp: getElementById_def find_None_iff)

lemma getElementById_Some:
  "getElementById w i = Some e \<Longrightarrow> e \<in> set (elements w) \<and> el_id e = i \<and> i \<noteq> []"
  by (auto simp: getElementById_def find_Some_iff split: if_splits)

lemma getOrCreate_found: "getElementById w i = Some e \<Longrightarrow> getOrCreate i w = (e, w)"
  by (simp add: getOrCreate_def)

lemma getOrCreate_new:
  "getElementById w i = None \<Longrightarrow>
   getOrCreate i w =
     (\<lparr>node_ref = next_node w, tag = ''div'', el_id = i\<rparr>,
      w\<lparr>elements := elements w @ [\<lparr>node_ref = next_node w, tag = ''div'', el_id = i\<rparr>],
        next_node := Suc (next_node w)\<rparr>)"
  by (simp add: getOrCreate_def createElement_def appendChild_def)

lemma getOrCreate_valid:
  assumes "valid_world w" and "getOrCreate i w = (e, w')"
  shows "valid_world w' \<and> e \<in> set (elements w') \<and> el_id e = i \<and>
         live w' = live w \<and> next_handle w' = next_handle w"
proof (cases "getElementById w i")
  case None
  have "next_node w \<notin> set (map node_ref (elements w))"
    using assms(1) by (fastforce simp: valid_world_def list_all_iff)
  with None assms show ?thesis
    by (auto simp: getOrCreate_new valid_world_def getElementById_None list_all_iff less_Suc_eq)
next
  case (Some a)
  with assms show ?thesis
    by (auto simp: getOrCreate_found dest: getElementById_Some)
qed

lemma getOrCreate_backend:
  "getOrCreate i w = (e, w') \<Longrightarrow> live w' = live w \<and> next_handle w' = next_handle w"
  by (auto simp: getOrCreate_def createElement_def appendChild_def split: option.splits)

lemma unique_id:
  assumes "valid_world w" and "e \<in> set (elements w)" and "x \<in> set (elements w)"
    and "el_id x = el_id e" and "el_id e \<noteq> []"
  shows "x = e"
proof -
  have inj: "inj_on el_id (set (filter (\<lambda>e. el_id e \<noteq> []) (elements w)))"
    using assms(1) by (simp add: valid_world_def distinct_map)
  have mem: "x \<in> set (filter (\<lambda>e. el_id e \<noteq> []) (elements w))"
    "e \<in> set (filter (\<lambda>e. el_id e \<noteq> []) (elements w))"
    using assms(2-5) by simp_all
  show ?thesis
    by (rule inj_onD[OF inj assms(4) mem])
qed

lemma lookup_after_removal:
  assumes "valid_world w" and "e \<in> set (elements w)"
  shows "getElementById (removeChild e w) (el_id e) = None"
proof (cases "el_id e = []")
  case True
  then show ?thesis by (simp add: getElementById_def)
next
  case False
  have "el_id e \<notin> set (map el_id (elements (removeChild e w)))"
  proof
    assume "el_id e \<in> set (map el_id (elements (removeChild e w)))"
    then obtain x where x: "x \<in> set (elements w)" "node_ref x \<noteq> node_ref e" "el_id x = el_id e"
      by (auto simp: removeChild_def)
    from unique_id[OF assms x(1,3) False] x(2) show False by simp
  qed
  then show ?thesis by (simp add: getElementById_None)
qed

lemma distinct_ids_filter:
  "distinct (map el_id (filter P xs)) \<Longrightarrow> distinct (map el_id (filter (\<lambda>x. Q x \<and> P x) xs))"
  by (induction xs) (auto split: if_splits)

lemma getElementById_elements:
  "elements w' = elements w \<Longrightarrow> getElementById w' i = getElementById w i"
  by (simp add: getElementById_def)

lemma stored_element_old:
  assumes "valid_world w" and "e \<in> set (elements w)"
  shows "next_node w \<noteq> node_ref e"
  using assms by (fastforce simp: valid_world_def list_all_iff)

lemma one_with_id:
  assumes "distinct (map el_id (filter (\<lambda>x. el_id x \<noteq> []) xs))" and "e \<in> set xs"
    and "el_id e \<noteq> []"
  shows "length (filter (\<lambda>x. el_id x = el_id e) xs) = 1"
  using assms(1,2)
proof (induction xs)
  case Nil
  then show ?case by simp
next
  case (Cons a xs)
  show ?case
  proof (cases "el_id a = el_id e")
    case True
    with Cons.prems(1) assms(3)
    have "el_id a \<notin> el_id ` set (filter (\<lambda>x. el_id x \<noteq> []) xs)"
      by simp
    with True assms(3) have "\<forall>x\<in>set xs. el_id x \<noteq> el_id e"
      by (fastforce simp: image_iff)
    then have "filter (\<lambda>x. el_id x = el_id e) xs = []"
      by (simp add: filter_empty_conv)
    with True show ?thesis by simp
  next
    case False
    with Cons.prems have "e \<in> set xs" "distinct (map el_id (filter (\<lambda>x. el_id x \<noteq> []) xs))"
      by (auto split: if_splits)
    with Cons.IH False show ?thesis by simp
  qed
qed

lemma restrict_to_rest: "dom m \<subseteq> A \<Longrightarrow> m |` (- A) = Map.empty"
  by (rule ext) (auto simp: restrict_map_def)

subsection \<open>The React mounter\<close>

lemma react_mount_inv:
  assumes "react_inv s" and "react_mount L ps i s = Inr s'"
  shows "react_inv s'"
  using assms
  by (auto simp: react_mount_def react_inv_def Let_def createRoot_def root_render_def
      valid_world_def split: option.splits if_splits prod.splits sum.splits
      dest!: getOrCreate_valid[rotated])

lemma removeChild_valid: "valid_world w \<Longrightarrow> valid_world (removeChild e w)"
  by (auto simp: valid_world_def removeChild_def list_all_iff distinct_map_filter
      distinct_ids_filter)

lemma react_unmount_inv: "react_inv s \<Longrightarrow> react_inv (react_unmount s)"
  by (auto simp: react_inv_def react_unmount_def root_unmount_def valid_world_def
      split: option.splits)

lemma react_unmount_fields:
  "root (react_unmount s) = None"
  "rootElement (react_unmount s) = rootElement s"
  "elements (world (react_unmount s)) = elements (world s)"
  by (simp_all add: react_unmount_def root_unmount_def split: option.splits)

lemma react_unmount_counters:
  "next_node (world (react_unmount r)) = next_node (world r)"
  "next_handle (world (react_unmount r)) = next_handle (world r)"
  by (simp_all add: react_unmount_def root_unmount_def split: option.splits)

lemma react_unmount_eq:
  "react_unmount r =
     r\<lparr>world := (world r)\<lparr>live := live (world r) |` (- set_option (root r))\<rparr>, root := None\<rparr>"
  by (auto simp: react_unmount_def root_unmount_def restrict_map_def fun_eq_iff
      split: option.splits)

lemma react_unmount_live:
  "live (world (react_unmount r)) = live (world r) |` (- set_option (root r))"
  by (auto simp: react_unmount_def root_unmount_def restrict_map_def fun_eq_iff
      split: option.splits)

lemma filter_absent:
  "node_ref e \<notin> node_ref ` set xs \<Longrightarrow> filter (\<lambda>x. node_ref x \<noteq> node_ref e) xs = xs"
  by (induction xs) auto

lemma react_cleanup_fields:
  "root (react_cleanup r) = None"
  "rootElement (react_cleanup r) = None"
  "live (world (react_cleanup r)) = live (world (react_unmount r))"
  "elements (world (react_cleanup r)) =
     (case rootElement r of
        None \<Rightarrow> elements (world r)
      | Some e \<Rightarrow> filter (\<lambda>x. node_ref x \<noteq> node_ref e) (elements (world r)))"
  "next_node (world (react_cleanup r)) = next_node (world r)"
  "next_handle (world (react_cleanup r)) = next_handle (world r)"
  by (auto simp: react_cleanup_def Let_def react_unmount_fields react_unmount_counters
      removeChild_def parentNode_def filter_absent split: option.splits)

lemma react_cleanup_inv:
  assumes "react_inv s"
  shows "react_inv (react_cleanup s)"
proof -
  have "valid_world (world (react_unmount s))"
    using react_unmount_inv[OF assms] by (simp add: react_inv_def)
  then show ?thesis
    by (auto simp: react_inv_def react_cleanup_def Let_def react_unmount_fields
        removeChild_valid split: option.splits)
qed

lemma empty_page_valid: "valid_world empty_page"
  by (simp add: valid_world_def empty_page_def)

lemma react_init_inv: "valid_world w \<Longrightarrow> react_inv (react_init w)"
  by (simp add: react_inv_def react_init_def)

lemma react_init_empty_page_inv: "react_inv (react_init empty_page)"
  by (simp add: react_init_inv empty_page_valid)

lemma react_mounted_inv: "react_inv react_mounted"
  by (simp add: react_inv_def valid_world_def react_mounted_def)

lemma react_run_inv: "react_inv s \<Longrightarrow> react_run cs s = Inr s' \<Longrightarrow> react_inv s'"
proof (induction cs arbitrary: s)
  case Nil
  then show ?case by simp
next
  case (Cons c cs)
  then show ?case
    by (cases c) (auto split: sum.splits
        intro: react_mount_inv react_unmount_inv react_cleanup_inv)
qed

subsection \<open>The Solid mounter\<close>

lemma solid_mount_inv: "solid_inv s \<Longrightarrow> solid_inv (solid_mount L ps i s)"
  by (auto simp: solid_mount_def solid_inv_def Let_def render_def call_dispose_def
      valid_world_def split: option.splits if_splits prod.splits
      dest!: getOrCreate_valid[rotated])

lemma solid_unmount_inv: "solid_inv s \<Longrightarrow> solid_inv (solid_unmount s)"
  by (auto simp: solid_inv_def solid_unmount_def call_dispose_def valid_world_def
      split: option.splits)

lemma solid_unmount_fields:
  "dispose (solid_unmount s) = None"
  "rootElement (solid_unmount s) = rootElement s"
  "elements (world (solid_unmount s)) = elements (world s)"
  by (simp_all add: solid_unmount_def call_dispose_def split: option.splits)

lemma removeChild_live: "live (removeChild e w) = live w"
  by (simp add: removeChild_def)

lemma solid_unmount_counters:
  "next_node (world (solid_unmount s)) = next_node (world s)"
  "next_handle (world (solid_unmount s)) = next_handle (world s)"
  by (simp_all add: solid_unmount_def call_dispose_def split: option.splits)

lemma solid_unmount_eq:
  "solid_unmount s =
     s\<lparr>world := (world s)\<lparr>live := live (world s) |` (- set_option (dispose s))\<rparr>,
       dispose := None\<rparr>"
  by (auto simp: solid_unmount_def call_dispose_def restrict_map_def fun_eq_iff
      split: option.splits)

lemma solid_unmount_live:
  "live (world (solid_unmount s)) = live (world s) |` (- set_option (dispose s))"
  by (auto simp: solid_unmount_def call_dispose_def restrict_map_def fun_eq_iff
      split: option.splits)

lemma solid_cleanup_fields:
  "dispose (solid_cleanup s) = None"
  "rootElement (solid_cleanup s) = None"
  "live (world (solid_cleanup s)) = live (world (solid_unmount s))"
  "elements (world (solid_cleanup s)) =
     (case rootElement s of
        None \<Rightarrow> elements (world s)
      | Some e \<Rightarrow> filter (\<lambda>x. node_ref x \<noteq> node_ref e) (elements (world s)))"
  "next_node (world (solid_cleanup s)) = next_node (world s)"
  "next_handle (world (solid_cleanup s)) = next_handle (world s)"
  by (auto simp: solid_cleanup_def Let_def solid_unmount_fields solid_unmount_counters
      removeChild_def parentNode_def filter_absent split: option.splits)

lemma solid_cleanup_inv:
  assumes "solid_inv s"
  shows "solid_inv (solid_cleanup s)"
proof -
  have "valid_world (world (solid_unmount s))" "dom (live (world (solid_unmount s))) = {}"
    using solid_unmount_inv[OF assms] by (simp_all add: solid_inv_def solid_unmount_fields)
  then show ?thesis
    by (auto simp: solid_inv_def solid_cleanup_def Let_def solid_unmount_fields
        removeChild_valid removeChild_live split: option.splits)
qed

lemma solid_init_inv: "valid_world w \<Longrightarrow> live w = Map.empty \<Longrightarrow> solid_inv (solid_init w)"
  by (simp add: solid_inv_def solid_init_def)

lemma solid_init_empty_page_inv: "solid_inv (solid_init empty_page)"
  by (rule solid_init_inv) (simp_all add: empty_page_valid, simp add: empty_page_def)

lemma solid_mounted_inv: "solid_inv solid_mounted"
  by (simp add: solid_inv_def valid_world_def solid_mounted_def)

lemma solid_handle_old:
  assumes "solid_inv s" and "dispose s = Some d"
  shows "d \<noteq> next_handle (world s)"
proof
  assume "d = next_handle (world s)"
  then have "live (world s) d = None"
    using assms(1) by (simp add: solid_inv_def valid_world_def)
  moreover have "d \<in> dom (live (world s))"
    using assms by (simp add: solid_inv_def)
  ultimately show False by auto
qed

lemma solid_run_inv: "solid_inv s \<Longrightarrow> solid_inv (solid_run cs s)"
proof (induction cs arbitrary: s)
  case Nil
  then show ?case by simp
next
  case (Cons c cs)
  then show ?case
    by (cases c) (auto intro: solid_mount_inv solid_unmount_inv solid_cleanup_inv)
qed

section \<open>Evaluating the mounters\<close>

lemmas dom_defs =
  getElementById_def createElement_def appendChild_def parentNode_def removeChild_def
  getOrCreate_def

lemmas backend_defs =
  createRoot_def root_render_def root_unmount_def render_def call_dispose_def

lemmas react_defs =
  react_init_def react_mount_def react_mount_default_def react_unmount_def react_cleanup_def

lemmas solid_defs =
  solid_init_def solid_mount_def solid_mount_default_def solid_unmount_def solid_cleanup_def

text \<open>The two example states are what one \<^verbatim>\<open>mount\<close> on the empty page gives.\<close>

lemma react_mounted_run:
  "react_mount ''Layout'' [(''content'', ''X'')] ''app-root'' (react_init empty_page) = Inr react_mounted"
  by (simp add: react_mounted_def empty_page_def react_defs dom_defs backend_defs)

lemma solid_mounted_run:
  "solid_mount ''Layout'' [(''content'', ''X'')] ''app-root'' (solid_init empty_page) = solid_mounted"
  by (simp add: solid_mounted_def empty_page_def solid_defs dom_defs backend_defs)

section \<open>mount\<close>

subsection \<open>mount in the Detached state\<close>

text \<open>
  After \<^verbatim>\<open>unmount\<close> the React module holds \<^verbatim>\<open>root = null\<close> and still its
  \<^verbatim>\<open>rootElement\<close>. A \<^verbatim>\<open>mount\<close> with the id of that element skips the \<^verbatim>\<open>if\<close>, so no
  root is created, and \<^verbatim>\<open>root.render\<close> is evaluated on \<^verbatim>\<open>null\<close>.
\<close>

lemma react_mount_detached:
  assumes "rootElement s = Some e" and "root s = None"
  shows "react_mount Layout ps (el_id e) s = Inl TypeError"
  using assms by (simp add: react_mount_def)

text \<open>
  Claim C1: \<^verbatim>\<open>mount\<close> succeeds in every reachable state, in particular in the Detached
  state (after \<^verbatim>\<open>unmount\<close>, with the same \<open>elementId\<close>). The React mounter does not:
  on an empty page, \<^verbatim>\<open>mount\<close>, \<^verbatim>\<open>unmount\<close>, \<^verbatim>\<open>mount\<close> with the default id ends in
  the \<^verbatim>\<open>TypeError\<close> of \<^verbatim>\<open>null.render\<close>.
\<close>

theorem react_mount_after_unmount_throws:
  "react_run
     [Mount ''MainLayout'' [(''content'', ''X'')] ''react-root'',
      Unmount,
      Mount ''MainLayout'' [(''content'', ''X'')] ''react-root'']
     (react_init empty_page) = Inl TypeError"
  by (simp add: empty_page_def react_defs dom_defs backend_defs)

subsection \<open>mount with another id\<close>

text \<open>
  When the React module holds a root and an element with another id than the one asked
  for, \<^verbatim>\<open>mount\<close> stores a new root; the root it held is as live as before.
\<close>

lemma react_switch_keeps_old_root:
  assumes "react_inv r" and "rootElement r = Some e" and "el_id e \<noteq> i" and "root r = Some h"
  shows "\<exists>r'. react_mount Layout ps i r = Inr r' \<and>
           root r' = Some (next_handle (world r)) \<and>
           next_handle (world r) \<noteq> h \<and>
           live (world r) h \<noteq> None \<and>
           live (world r') h = live (world r) h"
proof -
  obtain t where t: "live (world r) h = Some t"
    using assms(1,2,4) by (auto simp: react_inv_def split: option.splits)
  have "live (world r) (next_handle (world r)) = None"
    using assms(1) by (simp add: react_inv_def valid_world_def)
  with t have new: "next_handle (world r) \<noteq> h"
    by auto
  obtain f w1 where g: "getOrCreate i (world r) = (f, w1)"
    by (cases "getOrCreate i (world r)")
  from getOrCreate_backend[OF g] have "live w1 = live (world r)" "next_handle w1 = next_handle (world r)"
    by simp_all
  with assms(2,3) g new t show ?thesis
    by (simp add: react_mount_def Let_def createRoot_def root_render_def)
qed

text \<open>
  Claim C2: when two consecutive \<^verbatim>\<open>mount\<close>s differ in \<open>elementId\<close>, the previous
  render handle is disposed before the new one is created, so two handles are never
  live together. The React mounter overwrites \<^verbatim>\<open>root\<close> without calling
  \<^verbatim>\<open>unmount\<close> on it: after \<^verbatim>\<open>mount\<close> into \<^verbatim>\<open>app-root\<close> and \<^verbatim>\<open>mount\<close> into
  \<^verbatim>\<open>other-root\<close> both roots are live, each showing the layout in its own element.
\<close>

theorem react_switch_leaves_two_live_roots:
  "(case react_run
           [Mount ''Layout'' [] ''app-root'', Mount ''Layout'' [] ''other-root'']
           (react_init empty_page) of
      Inl err \<Rightarrow> False
    | Inr s \<Rightarrow>
        root s = Some 1 \<and>
        dom (live (world s)) = {0, 1} \<and>
        live (world s) 0 = Some \<lparr>container = 0, content = Some (''Layout'', [])\<rparr> \<and>
        live (world s) 1 = Some \<lparr>container = 1, content = Some (''Layout'', [])\<rparr>)"
  by (simp add: empty_page_def react_defs dom_defs backend_defs insert_commute)

subsection \<open>mount with an id that no element has\<close>

text \<open>
  When the stored element (if any) has another id than the one asked for and the lookup
  finds nothing, both mounters create the element. In a reachable state that is so
  whenever no element of the document has the id.
\<close>

lemma react_mount_fresh:
  assumes lookup: "getElementById (world r) i = None"
    and stale: "case rootElement r of None \<Rightarrow> True | Some e0 \<Rightarrow> el_id e0 \<noteq> i"
  shows "react_mount Layout ps i r =
     Inr (r\<lparr>rootElement := Some \<lparr>node_ref = next_node (world r), tag = ''div'', el_id = i\<rparr>,
            world := (world r)
              \<lparr>elements := elements (world r) @
                   [\<lparr>node_ref = next_node (world r), tag = ''div'', el_id = i\<rparr>],
               next_node := Suc (next_node (world r)),
               live := (live (world r))
                   (next_handle (world r) \<mapsto>
                      \<lparr>container = next_node (world r), content = Some (Layout, ps)\<rparr>),
               next_handle := Suc (next_handle (world r))\<rparr>,
            root := Some (next_handle (world r))\<rparr>)"
  using stale
  by (simp add: react_mount_def Let_def getOrCreate_new[OF lookup] createRoot_def
      root_render_def split: option.splits)

lemma react_mount_absent:
  assumes "react_inv r" and "i \<notin> set (map el_id (elements (world r)))"
  shows "react_mount Layout ps i r =
     Inr (r\<lparr>rootElement := Some \<lparr>node_ref = next_node (world r), tag = ''div'', el_id = i\<rparr>,
            world := (world r)
              \<lparr>elements := elements (world r) @
                   [\<lparr>node_ref = next_node (world r), tag = ''div'', el_id = i\<rparr>],
               next_node := Suc (next_node (world r)),
               live := (live (world r))
                   (next_handle (world r) \<mapsto>
                      \<lparr>container = next_node (world r), content = Some (Layout, ps)\<rparr>),
               next_handle := Suc (next_handle (world r))\<rparr>,
            root := Some (next_handle (world r))\<rparr>)"
proof -
  have lookup: "getElementById (world r) i = None"
    using assms(2) by (simp add: getElementById_None)
  have stale: "case rootElement r of None \<Rightarrow> True | Some e0 \<Rightarrow> el_id e0 \<noteq> i"
    using assms by (auto simp: react_inv_def split: option.splits)
  show ?thesis
    by (rule react_mount_fresh[OF lookup stale])
qed

text \<open>
  The Solid \<^verbatim>\<open>mount\<close> starts with what \<^verbatim>\<open>unmount\<close> does: its result is the one of
  \<^verbatim>\<open>mount\<close> after \<^verbatim>\<open>unmount\<close>.
\<close>

lemma solid_mount_unmount:
  "solid_mount Layout ps i s = solid_mount Layout ps i (solid_unmount s)"
  by (simp add: solid_mount_def solid_unmount_def Let_def split: option.splits prod.splits)

lemma solid_mount_fresh:
  assumes "solid_inv s" and found: "getElementById (world s) i = None"
    and stale: "case rootElement s of None \<Rightarrow> True | Some e0 \<Rightarrow> el_id e0 \<noteq> i"
  shows "solid_mount Layout ps i s =
     s\<lparr>rootElement := Some \<lparr>node_ref = next_node (world s), tag = ''div'', el_id = i\<rparr>,
       world := (world s)
         \<lparr>elements := elements (world s) @
              [\<lparr>node_ref = next_node (world s), tag = ''div'', el_id = i\<rparr>],
          next_node := Suc (next_node (world s)),
          live := [next_handle (world s) \<mapsto>
                     \<lparr>container = next_node (world s), content = Some (Layout, ps)\<rparr>],
          next_handle := Suc (next_handle (world s))\<rparr>,
       dispose := Some (next_handle (world s))\<rparr>"
proof -
  let ?w = "(world s)\<lparr>live := Map.empty\<rparr>"
  have u: "solid_unmount s = s\<lparr>world := ?w, dispose := None\<rparr>"
    using assms(1) by (simp add: solid_unmount_eq solid_inv_def restrict_to_rest)
  have lookup: "getElementById ?w i = None"
    using found getElementById_elements[of ?w "world s" i] by simp
  have "solid_mount Layout ps i s =
      solid_mount Layout ps i (s\<lparr>world := ?w, dispose := None\<rparr>)"
    using solid_mount_unmount[of Layout ps i s] u by simp
  also have "\<dots> =
     s\<lparr>rootElement := Some \<lparr>node_ref = next_node (world s), tag = ''div'', el_id = i\<rparr>,
       world := (world s)
         \<lparr>elements := elements (world s) @
              [\<lparr>node_ref = next_node (world s), tag = ''div'', el_id = i\<rparr>],
          next_node := Suc (next_node (world s)),
          live := [next_handle (world s) \<mapsto>
                     \<lparr>container = next_node (world s), content = Some (Layout, ps)\<rparr>],
          next_handle := Suc (next_handle (world s))\<rparr>,
       dispose := Some (next_handle (world s))\<rparr>"
    using stale
    by (simp add: solid_mount_def Let_def getOrCreate_new[OF lookup] render_def
        split: option.splits)
  finally show ?thesis .
qed

lemma solid_mount_absent:
  assumes "solid_inv s" and "i \<notin> set (map el_id (elements (world s)))"
  shows "solid_mount Layout ps i s =
     s\<lparr>rootElement := Some \<lparr>node_ref = next_node (world s), tag = ''div'', el_id = i\<rparr>,
       world := (world s)
         \<lparr>elements := elements (world s) @
              [\<lparr>node_ref = next_node (world s), tag = ''div'', el_id = i\<rparr>],
          next_node := Suc (next_node (world s)),
          live := [next_handle (world s) \<mapsto>
                     \<lparr>container = next_node (world s), content = Some (Layout, ps)\<rparr>],
          next_handle := Suc (next_handle (world s))\<rparr>,
       dispose := Some (next_handle (world s))\<rparr>"
proof -
  have lookup: "getElementById (world s) i = None"
    using assms(2) by (simp add: getElementById_None)
  have stale: "case rootElement s of None \<Rightarrow> True | Some e0 \<Rightarrow> el_id e0 \<noteq> i"
    using assms by (auto simp: solid_inv_def split: option.splits)
  show ?thesis
    by (rule solid_mount_fresh[OF assms(1) lookup stale])
qed

text \<open>
  Claim C8: \<^verbatim>\<open>mount\<close> with an \<open>elementId\<close> that no element of the document has
  creates a \<^verbatim>\<open>div\<close> with that id, appends it to the body and renders the component
  with the props into it. In every reachable state of either mounter the state after
  the call is the state before with: the new \<^verbatim>\<open>div\<close> as last element of the
  document and as stored element, and a new handle, stored and live, that renders the
  component with the props into that \<^verbatim>\<open>div\<close>. (In the Solid mounter it is the only
  live handle.)
\<close>

theorem mount_creates_container:
  assumes "react_inv r" and "i \<notin> set (map el_id (elements (world r)))"
    and "solid_inv s" and "j \<notin> set (map el_id (elements (world s)))"
  shows "react_mount Layout ps i r =
     Inr (r\<lparr>rootElement := Some \<lparr>node_ref = next_node (world r), tag = ''div'', el_id = i\<rparr>,
            world := (world r)
              \<lparr>elements := elements (world r) @
                   [\<lparr>node_ref = next_node (world r), tag = ''div'', el_id = i\<rparr>],
               next_node := Suc (next_node (world r)),
               live := (live (world r))
                   (next_handle (world r) \<mapsto>
                      \<lparr>container = next_node (world r), content = Some (Layout, ps)\<rparr>),
               next_handle := Suc (next_handle (world r))\<rparr>,
            root := Some (next_handle (world r))\<rparr>) \<and>
   solid_mount Layout ps j s =
     s\<lparr>rootElement := Some \<lparr>node_ref = next_node (world s), tag = ''div'', el_id = j\<rparr>,
       world := (world s)
         \<lparr>elements := elements (world s) @
              [\<lparr>node_ref = next_node (world s), tag = ''div'', el_id = j\<rparr>],
          next_node := Suc (next_node (world s)),
          live := [next_handle (world s) \<mapsto>
                     \<lparr>container = next_node (world s), content = Some (Layout, ps)\<rparr>],
          next_handle := Suc (next_handle (world s))\<rparr>,
       dispose := Some (next_handle (world s))\<rparr>"
  using react_mount_absent[OF assms(1,2)] solid_mount_absent[OF assms(3,4)] by simp

theorem mount_creates_container_witness:
  "react_inv (react_init empty_page) \<and>
   ''app-root'' \<notin> set (map el_id (elements (world (react_init empty_page)))) \<and>
   solid_inv (solid_init empty_page) \<and>
   ''app-root'' \<notin> set (map el_id (elements (world (solid_init empty_page)))) \<and>
   react_mount ''Layout'' [(''content'', ''X'')] ''app-root'' (react_init empty_page) =
     Inr react_mounted \<and>
   solid_mount ''Layout'' [(''content'', ''X'')] ''app-root'' (solid_init empty_page) =
     solid_mounted"
proof -
  have r: "react_inv (react_init empty_page)"
    by (simp add: react_init_inv empty_page_valid)
  have s: "solid_inv (solid_init empty_page)"
    by (rule solid_init_inv) (simp_all add: empty_page_valid, simp add: empty_page_def)
  have ri: "''app-root'' \<notin> set (map el_id (elements (world (react_init empty_page))))"
    by (simp add: react_init_def empty_page_def)
  have si: "''app-root'' \<notin> set (map el_id (elements (world (solid_init empty_page))))"
    by (simp add: solid_init_def empty_page_def)
  have "react_mount ''Layout'' [(''content'', ''X'')] ''app-root'' (react_init empty_page) =
     Inr react_mounted \<and>
   solid_mount ''Layout'' [(''content'', ''X'')] ''app-root'' (solid_init empty_page) =
     solid_mounted"
    using mount_creates_container [OF r ri s si, of "''Layout''" "[(''content'', ''X'')]"]
    by (simp add: react_init_def solid_init_def empty_page_def react_mounted_def
        solid_mounted_def)
  with r s ri si show ?thesis by blast
qed

subsection \<open>mount again with the same id\<close>

text \<open>
  After a \<^verbatim>\<open>mount\<close> that returned, the stored element has the id that was asked for
  (and the React module holds a root). A further \<^verbatim>\<open>mount\<close> with that id skips the
  element lookup in both mounters.
\<close>

lemma react_mount_post:
  assumes "react_inv r0" and "react_mount Layout ps i r0 = Inr r"
  shows "\<exists>e h. rootElement r = Some e \<and> el_id e = i \<and> root r = Some h"
  using assms
  by (auto simp: react_mount_def react_inv_def Let_def createRoot_def root_render_def
      split: option.splits if_splits prod.splits sum.splits
      dest!: getOrCreate_valid[rotated])

lemma react_remount:
  assumes "react_inv r" and "rootElement r = Some e" and "el_id e = i" and "root r = Some h"
  shows "\<exists>r'. react_mount Layout ps i r = Inr r' \<and>
           rootElement r' = Some e \<and> root r' = Some h \<and>
           elements (world r') = elements (world r) \<and>
           next_node (world r') = next_node (world r) \<and>
           next_handle (world r') = next_handle (world r)"
  using assms
  by (auto simp: react_mount_def react_inv_def root_render_def split: option.splits)

lemma react_remounts:
  assumes "react_inv r" and "rootElement r = Some e" and "el_id e = i" and "root r = Some h"
  shows "\<exists>r'. react_run (map (\<lambda>(Layout, ps). Mount Layout ps i) cs) r = Inr r' \<and>
           rootElement r' = Some e \<and> root r' = Some h \<and>
           elements (world r') = elements (world r) \<and>
           next_node (world r') = next_node (world r) \<and>
           next_handle (world r') = next_handle (world r)"
  using assms
proof (induction cs arbitrary: r)
  case Nil
  then show ?case by simp
next
  case (Cons c cs)
  obtain Layout ps where c: "c = (Layout, ps)"
    by (cases c)
  from react_remount[OF Cons.prems, of Layout ps] obtain r1 where
    r1: "react_mount Layout ps i r = Inr r1" "rootElement r1 = Some e" "root r1 = Some h"
      "elements (world r1) = elements (world r)" "next_node (world r1) = next_node (world r)"
      "next_handle (world r1) = next_handle (world r)"
    by blast
  have "react_inv r1"
    using react_mount_inv[OF Cons.prems(1) r1(1)] .
  from Cons.IH[OF this r1(2) Cons.prems(3) r1(3)] r1 c show ?case
    by auto
qed

lemma solid_mount_post:
  assumes "solid_inv s0"
  shows "\<exists>e. rootElement (solid_mount Layout ps i s0) = Some e \<and> el_id e = i"
  using assms
  by (auto simp: solid_mount_def solid_inv_def Let_def render_def call_dispose_def valid_world_def
      split: option.splits if_splits prod.splits
      dest!: getOrCreate_valid[rotated])

lemma solid_remount:
  assumes "rootElement s = Some e" and "el_id e = i"
  shows "rootElement (solid_mount Layout ps i s) = Some e \<and>
         elements (world (solid_mount Layout ps i s)) = elements (world s) \<and>
         next_node (world (solid_mount Layout ps i s)) = next_node (world s)"
  using assms
  by (simp add: solid_mount_def Let_def render_def call_dispose_def split: option.splits)

lemma solid_remounts:
  assumes "rootElement s = Some e" and "el_id e = i"
  shows "rootElement (solid_run (map (\<lambda>(Layout, ps). Mount Layout ps i) cs) s) = Some e \<and>
         elements (world (solid_run (map (\<lambda>(Layout, ps). Mount Layout ps i) cs) s)) =
           elements (world s) \<and>
         next_node (world (solid_run (map (\<lambda>(Layout, ps). Mount Layout ps i) cs) s)) =
           next_node (world s)"
  using assms
proof (induction cs arbitrary: s)
  case Nil
  then show ?case by simp
next
  case (Cons c cs)
  obtain Layout ps where c: "c = (Layout, ps)"
    by (cases c)
  from solid_remount[OF Cons.prems, of Layout ps] Cons.IH[of "solid_mount Layout ps i s"] Cons.prems(2) c
  show ?case by simp
qed

text \<open>
  The Solid \<^verbatim>\<open>mount\<close> stores the handle that \<^verbatim>\<open>render\<close> returns, a new one; in a
  reachable state the handle stored before is another one and is not live afterwards.
\<close>

lemma solid_mount_dispose:
  "dispose (solid_mount Layout ps i s) = Some (next_handle (world s))"
  by (auto simp: solid_mount_unmount[of Layout ps i s]
      solid_mount_def[of Layout ps i "solid_unmount s"]
      solid_unmount_fields solid_unmount_counters Let_def render_def
      split: option.splits prod.splits dest: getOrCreate_backend)

lemma solid_mount_renews:
  assumes "solid_inv s"
  shows "dispose (solid_mount Layout ps i s) = Some (next_handle (world s)) \<and>
         dispose s \<noteq> Some (next_handle (world s)) \<and>
         (\<forall>d. dispose s = Some d \<longrightarrow> live (world (solid_mount Layout ps i s)) d = None)"
proof -
  have new: "dispose (solid_mount Layout ps i s) = Some (next_handle (world s))"
    by (rule solid_mount_dispose)
  have old: "dispose s \<noteq> Some (next_handle (world s))"
    using solid_handle_old[OF assms] by auto
  have "dom (live (world (solid_mount Layout ps i s))) = {next_handle (world s)}"
    using solid_mount_inv[OF assms, of Layout ps i] new by (simp add: solid_inv_def)
  with old have "\<forall>d. dispose s = Some d \<longrightarrow> live (world (solid_mount Layout ps i s)) d = None"
    by (metis domIff singletonD)
  with new old show ?thesis by blast
qed

text \<open>
  Claim C3 says that after any \<^verbatim>\<open>mount\<close>, further \<^verbatim>\<open>mount\<close>s with the same
  \<open>elementId\<close> leave exactly one element with that id and reuse the existing container
  and the existing render handle. Two inputs show otherwise. The Solid mounter does
  not reuse the handle: on the empty page, after two \<^verbatim>\<open>mount\<close>s into \<^verbatim>\<open>app-root\<close>
  the stored handle is a new one and the handle of the first \<^verbatim>\<open>mount\<close> is no longer
  live. And the empty string is no ID: the lookup finds nothing for it, so in the
  React mounter \<^verbatim>\<open>mount\<close> with \<^verbatim>\<open>""\<close>, with \<^verbatim>\<open>"a"\<close> and with \<^verbatim>\<open>""\<close> again appends
  a second \<^verbatim>\<open>div\<close> with the empty id, and a further \<^verbatim>\<open>mount\<close> with \<^verbatim>\<open>""\<close> leaves two.
\<close>

theorem same_id_remount_counterexample:
  "dispose (solid_run [Mount ''Layout'' [] ''app-root''] (solid_init empty_page)) = Some 0 \<and>
   dispose (solid_run [Mount ''Layout'' [] ''app-root'', Mount ''Layout'' [] ''app-root'']
              (solid_init empty_page)) = Some 1 \<and>
   live (world (solid_run [Mount ''Layout'' [] ''app-root'', Mount ''Layout'' [] ''app-root'']
                  (solid_init empty_page))) 0 = None \<and>
   (case react_run
           [Mount ''Layout'' [] [], Mount ''Layout'' [] ''a'', Mount ''Layout'' [] [],
            Mount ''Layout'' [] []]
           (react_init empty_page) of
      Inl err \<Rightarrow> False
    | Inr s \<Rightarrow>
        elements (world s) =
          [\<lparr>node_ref = 0, tag = ''div'', el_id = []\<rparr>,
           \<lparr>node_ref = 1, tag = ''div'', el_id = ''a''\<rparr>,
           \<lparr>node_ref = 2, tag = ''div'', el_id = []\<rparr>] \<and>
        length (filter (\<lambda>x. el_id x = []) (elements (world s))) = 2)"
  by (simp add: empty_page_def react_defs solid_defs dom_defs backend_defs)

text \<open>
  Claim C3 as amended: after a \<^verbatim>\<open>mount\<close> that returned, with a non-empty
  \<open>elementId\<close>, any sequence of further \<^verbatim>\<open>mount\<close>s with the same \<open>elementId\<close> returns,
  leaves the document as it is (no element is created, and exactly one element has
  that id) and keeps the stored container. The React mounter also keeps its render
  handle and creates no other. In the Solid mounter every such \<^verbatim>\<open>mount\<close> (here the
  one after the sequence, for every sequence) stores a new handle, and the handle
  stored before it is another one and is no longer live.
\<close>

theorem remount_same_id:
  assumes "react_inv r0" and "react_mount Layout ps i r0 = Inr r" and "i \<noteq> []"
    and "solid_inv s0" and "s = solid_mount Layout ps j s0" and "j \<noteq> []"
    and "t = solid_run (map (\<lambda>(L, p). Mount L p j) ds) s"
  shows "(\<exists>r'. react_run (map (\<lambda>(L, p). Mount L p i) cs) r = Inr r' \<and>
            rootElement r' = rootElement r \<and> root r' = root r \<and>
            elements (world r') = elements (world r) \<and>
            next_node (world r') = next_node (world r) \<and>
            next_handle (world r') = next_handle (world r) \<and>
            length (filter (\<lambda>x. el_id x = i) (elements (world r'))) = 1) \<and>
         rootElement t = rootElement s \<and>
         elements (world t) = elements (world s) \<and>
         next_node (world t) = next_node (world s) \<and>
         length (filter (\<lambda>x. el_id x = j) (elements (world t))) = 1 \<and>
         dispose (solid_mount Layout' ps' j t) = Some (next_handle (world t)) \<and>
         dispose t \<noteq> Some (next_handle (world t)) \<and>
         (\<forall>d. dispose t = Some d \<longrightarrow> live (world (solid_mount Layout' ps' j t)) d = None)"
proof -
  have rinv: "react_inv r"
    using react_mount_inv[OF assms(1,2)] .
  obtain e h where e: "rootElement r = Some e" "el_id e = i" and h: "root r = Some h"
    using react_mount_post[OF assms(1,2)] by blast
  have "distinct (map el_id (filter (\<lambda>x. el_id x \<noteq> []) (elements (world r))))"
    "e \<in> set (elements (world r))"
    using rinv e(1) by (simp_all add: react_inv_def valid_world_def)
  then have rone: "length (filter (\<lambda>x. el_id x = i) (elements (world r))) = 1"
    using one_with_id[of "elements (world r)" e] e(2) assms(3) by simp
  have react: "\<exists>r'. react_run (map (\<lambda>(L, p). Mount L p i) cs) r = Inr r' \<and>
            rootElement r' = rootElement r \<and> root r' = root r \<and>
            elements (world r') = elements (world r) \<and>
            next_node (world r') = next_node (world r) \<and>
            next_handle (world r') = next_handle (world r) \<and>
            length (filter (\<lambda>x. el_id x = i) (elements (world r'))) = 1"
    using react_remounts[OF rinv e h, of cs] e(1) h rone by auto
  have sinv: "solid_inv s"
    using solid_mount_inv[OF assms(4)] assms(5) by simp
  obtain f where f: "rootElement s = Some f" "el_id f = j"
    using solid_mount_post[OF assms(4), of Layout ps j] assms(5) by blast
  have "distinct (map el_id (filter (\<lambda>x. el_id x \<noteq> []) (elements (world s))))"
    "f \<in> set (elements (world s))"
    using sinv f(1) by (simp_all add: solid_inv_def valid_world_def)
  then have sone: "length (filter (\<lambda>x. el_id x = j) (elements (world s))) = 1"
    using one_with_id[of "elements (world s)" f] f(2) assms(6) by simp
  have kept: "rootElement t = rootElement s \<and> elements (world t) = elements (world s) \<and>
      next_node (world t) = next_node (world s) \<and>
      length (filter (\<lambda>x. el_id x = j) (elements (world t))) = 1"
    using solid_remounts[OF f, of ds] f(1) sone assms(7) by simp
  have "solid_inv t"
    using solid_run_inv[OF sinv] assms(7) by simp
  from solid_mount_renews[OF this, of Layout' ps' j] kept react show ?thesis
    by blast
qed

theorem remount_same_id_witness:
  "react_inv (react_init empty_page) \<and>
   react_mount ''Layout'' [(''content'', ''X'')] ''app-root'' (react_init empty_page) =
     Inr react_mounted \<and>
   ''app-root'' \<noteq> [] \<and>
   solid_inv (solid_init empty_page) \<and>
   solid_mounted =
     solid_mount ''Layout'' [(''content'', ''X'')] ''app-root'' (solid_init empty_page) \<and>
   (\<exists>r'. react_run [Mount ''Layout'' [(''content'', ''Y'')] ''app-root''] react_mounted = Inr r' \<and>
      rootElement r' = Some \<lparr>node_ref = 0, tag = ''div'', el_id = ''app-root''\<rparr> \<and>
      root r' = Some 0 \<and>
      elements (world r') = [\<lparr>node_ref = 0, tag = ''div'', el_id = ''app-root''\<rparr>] \<and>
      length (filter (\<lambda>x. el_id x = ''app-root'') (elements (world r'))) = 1) \<and>
   rootElement (solid_run [Mount ''Layout'' [(''content'', ''Y'')] ''app-root''] solid_mounted) =
     Some \<lparr>node_ref = 0, tag = ''div'', el_id = ''app-root''\<rparr> \<and>
   elements (world (solid_run [Mount ''Layout'' [(''content'', ''Y'')] ''app-root''] solid_mounted)) =
     [\<lparr>node_ref = 0, tag = ''div'', el_id = ''app-root''\<rparr>] \<and>
   length (filter (\<lambda>x. el_id x = ''app-root'')
      (elements (world (solid_run [Mount ''Layout'' [(''content'', ''Y'')] ''app-root'']
         solid_mounted)))) = 1 \<and>
   dispose (solid_run [Mount ''Layout'' [(''content'', ''Y'')] ''app-root''] solid_mounted) =
     Some 1 \<and>
   dispose (solid_mount ''Layout'' [(''content'', ''Z'')] ''app-root''
      (solid_run [Mount ''Layout'' [(''content'', ''Y'')] ''app-root''] solid_mounted)) = Some 2 \<and>
   live (world (solid_mount ''Layout'' [(''content'', ''Z'')] ''app-root''
      (solid_run [Mount ''Layout'' [(''content'', ''Y'')] ''app-root''] solid_mounted))) 1 = None"
proof -
  let ?e = "\<lparr>node_ref = 0, tag = ''div'', el_id = ''app-root''\<rparr>"
  let ?t = "solid_run [Mount ''Layout'' [(''content'', ''Y'')] ''app-root''] solid_mounted"
  have r: "rootElement react_mounted = Some ?e" "root react_mounted = Some 0"
    "elements (world react_mounted) = [?e]"
    by (simp_all add: react_mounted_def)
  have s: "rootElement solid_mounted = Some ?e" "elements (world solid_mounted) = [?e]"
    by (simp_all add: solid_mounted_def)
  have t: "dispose ?t = Some 1" "next_handle (world ?t) = 2"
    by (simp_all add: solid_mounted_def solid_defs dom_defs backend_defs)
  have ne: "''app-root'' \<noteq> []"
    by simp
  have run: "?t = solid_run (map (\<lambda>(L, p). Mount L p ''app-root'')
      [(''Layout'', [(''content'', ''Y'')])]) solid_mounted"
    by simp
  note th = remount_same_id [OF react_init_empty_page_inv react_mounted_run ne
      solid_init_empty_page_inv solid_mounted_run [symmetric] ne run,
      of "[(''Layout'', [(''content'', ''Y'')])]" "''Layout''" "[(''content'', ''Z'')]"]
  from th have "(\<exists>r'. react_run [Mount ''Layout'' [(''content'', ''Y'')] ''app-root''] react_mounted = Inr r' \<and>
      rootElement r' = Some ?e \<and> root r' = Some 0 \<and> elements (world r') = [?e] \<and>
      length (filter (\<lambda>x. el_id x = ''app-root'') (elements (world r'))) = 1)"
    by (auto simp: r)
  moreover from th have "rootElement ?t = Some ?e \<and> elements (world ?t) = [?e]"
    by (simp add: s)
  moreover from th have "dispose (solid_mount ''Layout'' [(''content'', ''Z'')] ''app-root'' ?t) =
      Some (next_handle (world ?t))"
    by blast
  moreover from th t(1) have
    "live (world (solid_mount ''Layout'' [(''content'', ''Z'')] ''app-root'' ?t)) 1 = None"
    by blast
  ultimately show ?thesis
    using react_init_empty_page_inv react_mounted_run solid_init_empty_page_inv
      solid_mounted_run [symmetric] t
    by simp
qed

subsection \<open>The Solid mount disposes first\<close>

text \<open>
  Claim C10: in the Solid mounter every \<^verbatim>\<open>mount\<close> first disposes the current handle,
  also when the id is unchanged. In every state \<open>s\<close> reachable by calls the live
  handles are exactly the stored one, so at most one; \<^verbatim>\<open>mount\<close> in \<open>s\<close> is \<^verbatim>\<open>mount\<close>
  in the state \<^verbatim>\<open>unmount\<close> leaves, where no handle is live; and after \<^verbatim>\<open>mount\<close> the
  only live handle is a new one, the previous one being disposed, whatever the id.
\<close>

theorem solid_mount_disposes_first:
  assumes "solid_inv s0" and "s = solid_run cs s0"
  shows "dom (live (world s)) = set_option (dispose s) \<and>
         card (dom (live (world s))) \<le> 1 \<and>
         solid_mount Layout ps i s = solid_mount Layout ps i (solid_unmount s) \<and>
         live (world (solid_unmount s)) = Map.empty \<and>
         dispose (solid_mount Layout ps i s) = Some (next_handle (world s)) \<and>
         dom (live (world (solid_mount Layout ps i s))) = {next_handle (world s)} \<and>
         (\<forall>d. dispose s = Some d \<longrightarrow>
              d \<noteq> next_handle (world s) \<and> live (world (solid_mount Layout ps i s)) d = None)"
proof -
  have inv: "solid_inv s"
    using assms by (simp add: solid_run_inv)
  then have one: "dom (live (world s)) = set_option (dispose s)"
    by (simp add: solid_inv_def)
  then have card: "card (dom (live (world s))) \<le> 1"
    by (cases "dispose s") simp_all
  have detached: "live (world (solid_unmount s)) = Map.empty"
    using one by (simp add: solid_unmount_live restrict_to_rest)
  have new: "dispose (solid_mount Layout ps i s) = Some (next_handle (world s))"
    by (rule solid_mount_dispose)
  have after: "dom (live (world (solid_mount Layout ps i s))) = {next_handle (world s)}"
    using solid_mount_inv[OF inv, of Layout ps i] new by (simp add: solid_inv_def)
  have old: "\<forall>d. dispose s = Some d \<longrightarrow>
      d \<noteq> next_handle (world s) \<and> live (world (solid_mount Layout ps i s)) d = None"
  proof (intro allI impI)
    fix d assume d: "dispose s = Some d"
    have "d \<noteq> next_handle (world s)"
      by (rule solid_handle_old[OF inv d])
    moreover from this after have "live (world (solid_mount Layout ps i s)) d = None"
      by (metis domIff singletonD)
    ultimately show "d \<noteq> next_handle (world s) \<and>
        live (world (solid_mount Layout ps i s)) d = None" by simp
  qed
  from one card solid_mount_unmount[of Layout ps i s] detached new after old
  show ?thesis by blast
qed

theorem solid_mount_disposes_first_witness:
  "solid_inv (solid_init empty_page) \<and>
   solid_mounted =
     solid_run [Mount ''Layout'' [(''content'', ''X'')] ''app-root''] (solid_init empty_page) \<and>
   dispose solid_mounted = Some 0 \<and>
   dom (live (world solid_mounted)) = {0} \<and>
   dispose (solid_mount ''Layout'' [(''content'', ''Y'')] ''app-root'' solid_mounted) = Some 1 \<and>
   dom (live (world (solid_mount ''Layout'' [(''content'', ''Y'')] ''app-root'' solid_mounted))) = {1} \<and>
   live (world (solid_mount ''Layout'' [(''content'', ''Y'')] ''app-root'' solid_mounted)) 0 = None"
proof -
  have run: "solid_mounted =
     solid_run [Mount ''Layout'' [(''content'', ''X'')] ''app-root''] (solid_init empty_page)"
    by (simp add: solid_mounted_run)
  have s: "dispose solid_mounted = Some 0" "next_handle (world solid_mounted) = 1"
    by (simp_all add: solid_mounted_def)
  note th = solid_mount_disposes_first [OF solid_init_empty_page_inv run,
      of "''Layout''" "[(''content'', ''Y'')]" "''app-root''"]
  from th have a: "dom (live (world solid_mounted)) = set_option (dispose solid_mounted)"
    by blast
  from th have b:
    "dispose (solid_mount ''Layout'' [(''content'', ''Y'')] ''app-root'' solid_mounted) =
       Some (next_handle (world solid_mounted))"
    by blast
  from th have c:
    "dom (live (world (solid_mount ''Layout'' [(''content'', ''Y'')] ''app-root'' solid_mounted))) =
       {next_handle (world solid_mounted)}"
    by blast
  from th s(1) have d:
    "live (world (solid_mount ''Layout'' [(''content'', ''Y'')] ''app-root'' solid_mounted)) 0 = None"
    by blast
  from a b c d s run solid_init_empty_page_inv show ?thesis
    by simp
qed

section \<open>unmount\<close>

text \<open>
  Claim C4: \<^verbatim>\<open>unmount\<close> only disposes the render handle and clears the stored handle.
  In both mounters the state after \<^verbatim>\<open>unmount\<close> is the state before with the stored
  handle taken out of the live handles and the handle variable \<^verbatim>\<open>null\<close>: the
  document, the stored element and every other handle are as they were. So an owned
  element that is in the document is still owned and still in the document.
\<close>

theorem unmount_frame:
  "react_unmount r =
     r\<lparr>world := (world r)\<lparr>live := live (world r) |` (- set_option (root r))\<rparr>, root := None\<rparr> \<and>
   solid_unmount s =
     s\<lparr>world := (world s)\<lparr>live := live (world s) |` (- set_option (dispose s))\<rparr>,
       dispose := None\<rparr> \<and>
   (\<forall>e. rootElement r = Some e \<and> e \<in> set (elements (world r)) \<longrightarrow>
        rootElement (react_unmount r) = Some e \<and> e \<in> set (elements (world (react_unmount r)))) \<and>
   (\<forall>e. rootElement s = Some e \<and> e \<in> set (elements (world s)) \<longrightarrow>
        rootElement (solid_unmount s) = Some e \<and> e \<in> set (elements (world (solid_unmount s))))"
  by (auto simp: react_unmount_def solid_unmount_def root_unmount_def call_dispose_def
      restrict_map_def fun_eq_iff split: option.splits)

theorem unmount_frame_witness:
  "rootElement react_mounted = Some \<lparr>node_ref = 0, tag = ''div'', el_id = ''app-root''\<rparr> \<and>
   \<lparr>node_ref = 0, tag = ''div'', el_id = ''app-root''\<rparr> \<in> set (elements (world react_mounted)) \<and>
   rootElement (react_unmount react_mounted) =
     Some \<lparr>node_ref = 0, tag = ''div'', el_id = ''app-root''\<rparr> \<and>
   \<lparr>node_ref = 0, tag = ''div'', el_id = ''app-root''\<rparr>
     \<in> set (elements (world (react_unmount react_mounted))) \<and>
   rootElement solid_mounted = Some \<lparr>node_ref = 0, tag = ''div'', el_id = ''app-root''\<rparr> \<and>
   \<lparr>node_ref = 0, tag = ''div'', el_id = ''app-root''\<rparr> \<in> set (elements (world solid_mounted)) \<and>
   rootElement (solid_unmount solid_mounted) =
     Some \<lparr>node_ref = 0, tag = ''div'', el_id = ''app-root''\<rparr> \<and>
   \<lparr>node_ref = 0, tag = ''div'', el_id = ''app-root''\<rparr>
     \<in> set (elements (world (solid_unmount solid_mounted)))"
proof -
  have r: "rootElement react_mounted = Some \<lparr>node_ref = 0, tag = ''div'', el_id = ''app-root''\<rparr> \<and>
      \<lparr>node_ref = 0, tag = ''div'', el_id = ''app-root''\<rparr> \<in> set (elements (world react_mounted))"
    by (simp add: react_mounted_def)
  have s: "rootElement solid_mounted = Some \<lparr>node_ref = 0, tag = ''div'', el_id = ''app-root''\<rparr> \<and>
      \<lparr>node_ref = 0, tag = ''div'', el_id = ''app-root''\<rparr> \<in> set (elements (world solid_mounted))"
    by (simp add: solid_mounted_def)
  show ?thesis
    using unmount_frame [of react_mounted solid_mounted] r s by blast
qed

text \<open>
  Claim C5: \<^verbatim>\<open>unmount\<close> is idempotent. With no stored handle it returns the state it
  was given, and a second \<^verbatim>\<open>unmount\<close> in a row changes nothing; it cannot raise,
  being a function into states.
\<close>

theorem unmount_idempotent:
  "react_unmount (react_unmount r) = react_unmount r \<and>
   solid_unmount (solid_unmount s) = solid_unmount s \<and>
   (root r = None \<longrightarrow> react_unmount r = r) \<and>
   (dispose s = None \<longrightarrow> solid_unmount s = s)"
  by (simp add: react_unmount_def solid_unmount_def split: option.splits)

theorem unmount_idempotent_witness:
  "root (react_unmount react_mounted) = None \<and>
   react_unmount (react_unmount react_mounted) = react_unmount react_mounted \<and>
   dispose (solid_unmount solid_mounted) = None \<and>
   solid_unmount (solid_unmount solid_mounted) = solid_unmount solid_mounted"
  using unmount_idempotent [of "react_unmount react_mounted" "solid_unmount solid_mounted"]
    react_unmount_fields(1) [of react_mounted] solid_unmount_fields(1) [of solid_mounted]
  by blast

section \<open>cleanup\<close>

text \<open>
  Claim C7: \<^verbatim>\<open>cleanup\<close> in the Idle state (both variables \<^verbatim>\<open>null\<close>: \<^verbatim>\<open>mount\<close> never
  called, or a \<^verbatim>\<open>cleanup\<close> before) raises nothing and changes nothing, in both
  mounters; it cannot raise, being a function into states. On the empty page it
  leaves the document empty.
\<close>

theorem cleanup_idle:
  "react_cleanup (react_init w) = react_init w \<and>
   solid_cleanup (solid_init w) = solid_init w \<and>
   react_cleanup (react_cleanup r) = react_cleanup r \<and>
   solid_cleanup (solid_cleanup s) = solid_cleanup s \<and>
   elements (world (react_cleanup (react_init empty_page))) = [] \<and>
   elements (world (solid_cleanup (solid_init empty_page))) = []"
  by (simp add: empty_page_def react_defs solid_defs dom_defs backend_defs Let_def
      split: option.splits)

text \<open>
  What \<^verbatim>\<open>cleanup\<close> does from any state: both variables are \<^verbatim>\<open>null\<close> afterwards (the
  state is the one of a freshly loaded module in the world that is left), the handle
  that was stored is not live and the element that was stored is not in the
  document. It leaves no rendered tree when the stored handle was the only live one,
  which holds in every reachable state of the Solid mounter.
\<close>

lemma cleanup_clears:
  "react_cleanup r = react_init (world (react_cleanup r)) \<and>
   solid_cleanup s = solid_init (world (solid_cleanup s)) \<and>
   (\<forall>h. root r = Some h \<longrightarrow> live (world (react_cleanup r)) h = None) \<and>
   (\<forall>d. dispose s = Some d \<longrightarrow> live (world (solid_cleanup s)) d = None) \<and>
   (\<forall>e. rootElement r = Some e \<longrightarrow> \<not> parentNode e (world (react_cleanup r))) \<and>
   (\<forall>e. rootElement s = Some e \<longrightarrow> \<not> parentNode e (world (solid_cleanup s))) \<and>
   (dom (live (world r)) \<subseteq> set_option (root r) \<longrightarrow>
      live (world (react_cleanup r)) = Map.empty) \<and>
   (dom (live (world s)) \<subseteq> set_option (dispose s) \<longrightarrow>
      live (world (solid_cleanup s)) = Map.empty)"
proof -
  have "react_cleanup r = react_init (world (react_cleanup r))"
    by (simp add: react_init_def react_cleanup_fields)
  moreover have "solid_cleanup s = solid_init (world (solid_cleanup s))"
    by (simp add: solid_init_def solid_cleanup_fields)
  moreover have "\<forall>h. root r = Some h \<longrightarrow> live (world (react_cleanup r)) h = None"
    by (simp add: react_cleanup_fields react_unmount_live)
  moreover have "\<forall>d. dispose s = Some d \<longrightarrow> live (world (solid_cleanup s)) d = None"
    by (simp add: solid_cleanup_fields solid_unmount_live)
  moreover have "\<forall>e. rootElement r = Some e \<longrightarrow> \<not> parentNode e (world (react_cleanup r))"
    by (auto simp: parentNode_def react_cleanup_fields)
  moreover have "\<forall>e. rootElement s = Some e \<longrightarrow> \<not> parentNode e (world (solid_cleanup s))"
    by (auto simp: parentNode_def solid_cleanup_fields)
  moreover have "dom (live (world r)) \<subseteq> set_option (root r) \<longrightarrow>
      live (world (react_cleanup r)) = Map.empty"
    by (simp add: react_cleanup_fields react_unmount_live restrict_to_rest)
  moreover have "dom (live (world s)) \<subseteq> set_option (dispose s) \<longrightarrow>
      live (world (solid_cleanup s)) = Map.empty"
    by (simp add: solid_cleanup_fields solid_unmount_live restrict_to_rest)
  ultimately show ?thesis by blast
qed

lemma solid_cleanup_no_tree:
  assumes "solid_inv s"
  shows "live (world (solid_cleanup s)) = Map.empty"
  using assms
  by (simp add: solid_inv_def solid_cleanup_fields solid_unmount_live restrict_to_rest)

text \<open>
  Claim C6: after \<^verbatim>\<open>cleanup\<close>, from any state, neither a rendered tree nor the
  container element exists. The React mounter does not keep it in the state that
  \<^verbatim>\<open>mount\<close> into \<^verbatim>\<open>app-root\<close> and \<^verbatim>\<open>mount\<close> into \<^verbatim>\<open>other-root\<close> reach (where the
  root of the first \<^verbatim>\<open>mount\<close> was overwritten, never unmounted): \<^verbatim>\<open>cleanup\<close>
  clears both variables and removes \<^verbatim>\<open>other-root\<close> with its root, and the first
  root is still live, showing the layout in \<^verbatim>\<open>app-root\<close>, which is still in the
  document.
\<close>

theorem react_cleanup_leaves_leaked_root:
  "(case react_run
           [Mount ''Layout'' [] ''app-root'', Mount ''Layout'' [] ''other-root'', Cleanup]
           (react_init empty_page) of
      Inl err \<Rightarrow> False
    | Inr s \<Rightarrow>
        root s = None \<and> rootElement s = None \<and>
        dom (live (world s)) = {0} \<and>
        live (world s) 0 = Some \<lparr>container = 0, content = Some (''Layout'', [])\<rparr> \<and>
        elements (world s) = [\<lparr>node_ref = 0, tag = ''div'', el_id = ''app-root''\<rparr>])"
  by (simp add: empty_page_def react_defs dom_defs backend_defs Let_def)

subsection \<open>mount after cleanup\<close>

lemma react_cleanup_then_mount:
  assumes "react_inv r" and "rootElement r = Some e" and "el_id e = i"
  shows "\<exists>r'. react_mount Layout ps i (react_cleanup r) = Inr r' \<and>
           rootElement r' = Some \<lparr>node_ref = next_node (world r), tag = ''div'', el_id = i\<rparr> \<and>
           next_node (world r) \<noteq> node_ref e \<and>
           elements (world r') =
             filter (\<lambda>x. node_ref x \<noteq> node_ref e) (elements (world r)) @
             [\<lparr>node_ref = next_node (world r), tag = ''div'', el_id = i\<rparr>] \<and>
           root r' = Some (next_handle (world r)) \<and>
           live (world r') (next_handle (world r)) =
             Some \<lparr>container = next_node (world r), content = Some (Layout, ps)\<rparr>"
proof -
  have w: "valid_world (world r)" and e: "e \<in> set (elements (world r))"
    using assms(1,2) by (simp_all add: react_inv_def)
  have "elements (world (react_cleanup r)) = elements (removeChild e (world r))"
    using assms(2) by (simp add: react_cleanup_fields removeChild_def)
  then have lookup: "getElementById (world (react_cleanup r)) i = None"
    using lookup_after_removal[OF w e] assms(3)
      getElementById_elements[of "world (react_cleanup r)" "removeChild e (world r)" i]
    by simp
  have stale: "case rootElement (react_cleanup r) of None \<Rightarrow> True
               | Some e0 \<Rightarrow> el_id e0 \<noteq> i"
    by (simp add: react_cleanup_fields)
  show ?thesis
    using react_mount_fresh[OF lookup stale, of Layout ps]
      stored_element_old[OF w e] assms(2)
    by (simp add: react_cleanup_fields)
qed

lemma solid_cleanup_then_mount:
  assumes "solid_inv s" and "rootElement s = Some e" and "el_id e = i"
  shows "rootElement (solid_mount Layout ps i (solid_cleanup s)) =
             Some \<lparr>node_ref = next_node (world s), tag = ''div'', el_id = i\<rparr> \<and>
           next_node (world s) \<noteq> node_ref e \<and>
           elements (world (solid_mount Layout ps i (solid_cleanup s))) =
             filter (\<lambda>x. node_ref x \<noteq> node_ref e) (elements (world s)) @
             [\<lparr>node_ref = next_node (world s), tag = ''div'', el_id = i\<rparr>] \<and>
           dispose (solid_mount Layout ps i (solid_cleanup s)) = Some (next_handle (world s)) \<and>
           live (world (solid_mount Layout ps i (solid_cleanup s))) (next_handle (world s)) =
             Some \<lparr>container = next_node (world s), content = Some (Layout, ps)\<rparr>"
proof -
  have w: "valid_world (world s)" and e: "e \<in> set (elements (world s))"
    using assms(1,2) by (simp_all add: solid_inv_def)
  have "elements (world (solid_cleanup s)) = elements (removeChild e (world s))"
    using assms(2) by (simp add: solid_cleanup_fields removeChild_def)
  then have lookup: "getElementById (world (solid_cleanup s)) i = None"
    using lookup_after_removal[OF w e] assms(3)
      getElementById_elements[of "world (solid_cleanup s)" "removeChild e (world s)" i]
    by simp
  have stale: "case rootElement (solid_cleanup s) of None \<Rightarrow> True
               | Some e0 \<Rightarrow> el_id e0 \<noteq> i"
    by (simp add: solid_cleanup_fields)
  show ?thesis
    using stored_element_old[OF w e] assms(2)
    by (simp add: solid_mount_fresh[OF solid_cleanup_inv[OF assms(1)] lookup stale, of Layout ps]
        solid_cleanup_fields)
qed

text \<open>
  Claim C9: \<^verbatim>\<open>cleanup\<close> followed by \<^verbatim>\<open>mount\<close> with the same \<open>elementId\<close> recreates the
  container. In a reachable state whose stored element has the id, \<^verbatim>\<open>cleanup\<close> takes
  that element out of the document; the next \<^verbatim>\<open>mount\<close> with the id returns, having
  created another \<^verbatim>\<open>div\<close> (not the old element) with the id, appended it to the
  document, stored it and rendered the component with the props into it.
\<close>

theorem cleanup_then_mount_recreates:
  assumes "react_inv r" and "rootElement r = Some e" and "el_id e = i"
    and "solid_inv s" and "rootElement s = Some f" and "el_id f = j"
  shows "(\<exists>r'. react_mount Layout ps i (react_cleanup r) = Inr r' \<and>
           rootElement r' = Some \<lparr>node_ref = next_node (world r), tag = ''div'', el_id = i\<rparr> \<and>
           next_node (world r) \<noteq> node_ref e \<and>
           elements (world r') =
             filter (\<lambda>x. node_ref x \<noteq> node_ref e) (elements (world r)) @
             [\<lparr>node_ref = next_node (world r), tag = ''div'', el_id = i\<rparr>] \<and>
           root r' = Some (next_handle (world r)) \<and>
           live (world r') (next_handle (world r)) =
             Some \<lparr>container = next_node (world r), content = Some (Layout, ps)\<rparr>) \<and>
         rootElement (solid_mount Layout ps j (solid_cleanup s)) =
             Some \<lparr>node_ref = next_node (world s), tag = ''div'', el_id = j\<rparr> \<and>
         next_node (world s) \<noteq> node_ref f \<and>
         elements (world (solid_mount Layout ps j (solid_cleanup s))) =
             filter (\<lambda>x. node_ref x \<noteq> node_ref f) (elements (world s)) @
             [\<lparr>node_ref = next_node (world s), tag = ''div'', el_id = j\<rparr>] \<and>
         dispose (solid_mount Layout ps j (solid_cleanup s)) = Some (next_handle (world s)) \<and>
         live (world (solid_mount Layout ps j (solid_cleanup s))) (next_handle (world s)) =
             Some \<lparr>container = next_node (world s), content = Some (Layout, ps)\<rparr>"
  using react_cleanup_then_mount[OF assms(1,2,3), of Layout ps]
    solid_cleanup_then_mount[OF assms(4,5,6), of Layout ps]
  by blast

theorem cleanup_then_mount_recreates_witness:
  "react_inv react_mounted \<and>
   rootElement react_mounted = Some \<lparr>node_ref = 0, tag = ''div'', el_id = ''app-root''\<rparr> \<and>
   solid_inv solid_mounted \<and>
   rootElement solid_mounted = Some \<lparr>node_ref = 0, tag = ''div'', el_id = ''app-root''\<rparr> \<and>
   (\<exists>r'. react_mount ''Layout'' [] ''app-root'' (react_cleanup react_mounted) = Inr r' \<and>
      rootElement r' = Some \<lparr>node_ref = 1, tag = ''div'', el_id = ''app-root''\<rparr> \<and>
      elements (world r') = [\<lparr>node_ref = 1, tag = ''div'', el_id = ''app-root''\<rparr>] \<and>
      root r' = Some 1 \<and>
      live (world r') 1 = Some \<lparr>container = 1, content = Some (''Layout'', [])\<rparr>) \<and>
   rootElement (solid_mount ''Layout'' [] ''app-root'' (solid_cleanup solid_mounted)) =
     Some \<lparr>node_ref = 1, tag = ''div'', el_id = ''app-root''\<rparr> \<and>
   elements (world (solid_mount ''Layout'' [] ''app-root'' (solid_cleanup solid_mounted))) =
     [\<lparr>node_ref = 1, tag = ''div'', el_id = ''app-root''\<rparr>] \<and>
   dispose (solid_mount ''Layout'' [] ''app-root'' (solid_cleanup solid_mounted)) = Some 1 \<and>
   live (world (solid_mount ''Layout'' [] ''app-root'' (solid_cleanup solid_mounted))) 1 =
     Some \<lparr>container = 1, content = Some (''Layout'', [])\<rparr>"
proof -
  let ?e = "\<lparr>node_ref = 0, tag = ''div'', el_id = ''app-root''\<rparr>"
  have r: "rootElement react_mounted = Some ?e" "next_node (world react_mounted) = 1"
    "next_handle (world react_mounted) = 1" "elements (world react_mounted) = [?e]"
    by (simp_all add: react_mounted_def)
  have s: "rootElement solid_mounted = Some ?e" "next_node (world solid_mounted) = 1"
    "next_handle (world solid_mounted) = 1" "elements (world solid_mounted) = [?e]"
    by (simp_all add: solid_mounted_def)
  have i: "el_id ?e = ''app-root''"
    by simp
  show ?thesis
    using cleanup_then_mount_recreates
      [OF react_mounted_inv r(1) i solid_mounted_inv s(1) i, of "''Layout''" "[]"]
    by (simp add: r s react_mounted_inv solid_mounted_inv)
qed

end
